theory Spec2Isabelle
  imports Main "HOL-Library.Word" "HOL-Library.Signed_Division" "HOL-Library.Sublist"
begin

section \<open>Data model of \<^verbatim>\<open>recursive.c\<close>\<close>

text \<open>
  The C type \<^verbatim>\<open>int\<close> is a 32-bit two's complement integer: a \<open>32 word\<close> read through
  \<open>sint\<close>. Addition and subtraction on words wrap around; the only place of the program
  where that can happen is \<^verbatim>\<open>count - 1\<close> in \<^verbatim>\<open>RecursiveMadness_bar\<close> at the smallest
  \<^verbatim>\<open>int\<close> (C itself leaves that case undefined; the model takes the two's complement
  result).
\<close>

type_synonym int32 = "32 word"

text \<open>
  \<^verbatim>\<open>typedef struct RecursiveMadness { int width; int height; int current_generation;
  int* grid; int* next_grid; int depth; }\<close>. The two pointers are addresses.
\<close>

record RecursiveMadness =
  width :: int32
  height :: int32
  current_generation :: int32
  grid :: nat
  next_grid :: nat
  depth :: int32

text \<open>
  What the functions of the program can touch: the object behind their \<^verbatim>\<open>this\<close> pointer
  (there is one object only in a run) and the characters written to standard output so far.
\<close>

record world =
  session :: RecursiveMadness
  stdout :: string

text \<open>The only failure of the program: \<^verbatim>\<open>malloc\<close> gives NULL and the constructor writes through it.\<close>

datatype error = NullDereference

section \<open>Library calls\<close>

text \<open>C's \<^verbatim>\<open>%\<close> on \<^verbatim>\<open>int\<close>: the remainder of the division that truncates towards zero.\<close>

definition c_rem :: "int32 \<Rightarrow> int32 \<Rightarrow> int32" where
  "c_rem a b = word_of_int (sint a smod sint b)"

text \<open>The conversion \<^verbatim>\<open>%d\<close> of \<^verbatim>\<open>printf\<close>: decimal digits, a minus sign for a negative value.\<close>

definition digit_char :: "nat \<Rightarrow> char" where
  "digit_char d = ''0123456789'' ! d"

fun dec_nat :: "nat \<Rightarrow> string" where
  "dec_nat n = (if n < 10 then [digit_char n] else dec_nat (n div 10) @ [digit_char (n mod 10)])"

declare dec_nat.simps [simp del]

definition fmt_d :: "int32 \<Rightarrow> string" where
  "fmt_d x = (if sint x < 0 then CHR ''-'' # dec_nat (nat (- sint x)) else dec_nat (nat (sint x)))"

text \<open>\<^verbatim>\<open>printf\<close> appends the formatted text to standard output.\<close>

definition printf :: "world \<Rightarrow> string \<Rightarrow> world" where
  "printf w s = w\<lparr>stdout := stdout w @ s\<rparr>"

section \<open>The program\<close>

text \<open>
  \<^verbatim>\<open>int RecursiveMadness_get_limit(RecursiveMadness* this, int x)
  { if (x < 0) { return 0; } return x % 4 + 2; }\<close>
\<close>

definition RecursiveMadness_get_limit :: "RecursiveMadness \<Rightarrow> int32 \<Rightarrow> int32" where
  "RecursiveMadness_get_limit this x = (if sint x < 0 then 0 else c_rem x 4 + 2)"

subsection \<open>Signed arithmetic without overflow\<close>

lemma sint_small:
  "- 2147483648 \<le> k \<Longrightarrow> k < 2147483648 \<Longrightarrow> sint (word_of_int k :: int32) = k"
  by (simp add: sint_sbintrunc' signed_take_bit_int_eq_self)

lemma sint_range: "- 2147483648 \<le> sint (x::int32) \<and> sint x < 2147483648"
  using sint_ge [of x] sint_lt [of x] by simp

lemma sint_succ: "sint (i::int32) < 2147483647 \<Longrightarrow> sint (i + 1) = sint i + 1"
  using sint_range [of i] by (simp add: sint_word_add signed_take_bit_int_eq_self)

lemma sint_pred: "- 2147483648 < sint (c::int32) \<Longrightarrow> sint (c - 1) = sint c - 1"
  using sint_range [of c] by (simp add: sint_word_diff signed_take_bit_int_eq_self)

lemma smod4_nonneg: "0 \<le> (k::int) \<Longrightarrow> k smod 4 = k mod 4"
  by (simp add: smod_int_alt_def sgn_if)

lemma sint_c_rem4: "0 \<le> sint x \<Longrightarrow> sint (c_rem x 4) = sint x mod 4"
proof -
  assume h: "0 \<le> sint x"
  have m: "0 \<le> sint x mod 4 \<and> sint x mod 4 < 4" by simp
  have "sint (c_rem x 4) = sint (word_of_int (sint x mod 4) :: int32)"
    using h by (simp add: c_rem_def smod4_nonneg)
  also have "\<dots> = sint x mod 4"
    using m by (intro sint_small) linarith+
  finally show ?thesis .
qed

lemma sint_get_limit_nonneg:
  "0 \<le> sint x \<Longrightarrow> sint (RecursiveMadness_get_limit t x) = sint x mod 4 + 2"
proof -
  assume h: "0 \<le> sint x"
  have m: "0 \<le> sint x mod 4 \<and> sint x mod 4 < 4" by simp
  have "sint (c_rem x 4 + 2) = signed_take_bit 31 (sint x mod 4 + 2)"
    using h by (simp add: sint_word_add sint_c_rem4)
  also have "\<dots> = sint x mod 4 + 2"
    using m by (intro signed_take_bit_int_eq_self) simp_all
  finally show ?thesis using h by (simp add: RecursiveMadness_get_limit_def)
qed

lemma get_limit_neg: "sint x < 0 \<Longrightarrow> RecursiveMadness_get_limit t x = 0"
  by (simp add: RecursiveMadness_get_limit_def)

lemma sint_get_limit_bounds:
  "0 \<le> sint (RecursiveMadness_get_limit t x) \<and> sint (RecursiveMadness_get_limit t x) \<le> 5"
proof (cases "sint x < 0")
  case True
  then show ?thesis by (simp add: get_limit_neg)
next
  case False
  then have "0 \<le> sint x" by simp
  from sint_get_limit_nonneg [OF this, of t] show ?thesis
    using pos_mod_bound [of 4 "sint x"] pos_mod_sign [of 4 "sint x"] by linarith
qed

subsection \<open>The loop of \<^verbatim>\<open>bar\<close>\<close>

text \<open>
  \<^verbatim>\<open>for (int i = 0; i <= (this->get_limit(count)); i++)
  { int count = i; printf("bar loop i=%d, count=%d\n", i, count); }\<close>
  from the iteration at \<open>i\<close> on. The condition calls the bound again at every iteration;
  the record has no member \<^verbatim>\<open>get_limit\<close>, the call is to \<^verbatim>\<open>RecursiveMadness_get_limit\<close>.
  Inside the body \<^verbatim>\<open>count\<close> is the new local (\<open>count'\<close>), not the parameter.
\<close>

function bar_loop :: "world \<Rightarrow> int32 \<Rightarrow> int32 \<Rightarrow> world" where
  "bar_loop w count i =
     (if sint i \<le> sint (RecursiveMadness_get_limit (session w) count)
      then (let count' = i;
                w' = printf w (''bar loop i='' @ fmt_d i @ '', count='' @ fmt_d count' @ ''\<newline>'')
            in bar_loop w' count (i + 1))
      else w)"
  by pat_completeness auto
termination
proof (relation "measure (\<lambda>(w, count, i). nat (6 - sint i))")
  show "wf (measure (\<lambda>(w, count, i). nat (6 - sint i)))" by simp
next
  fix w :: world and count i x :: int32 and xa
  assume a: "sint i \<le> sint (RecursiveMadness_get_limit (session w) count)"
  have b: "sint i \<le> 5" using a sint_get_limit_bounds [of "session w" count] by linarith
  then have "sint (i + 1) = sint i + 1" by (intro sint_succ) linarith
  with b show "((xa, count, i + 1), w, count, i) \<in> measure (\<lambda>(w, count, i). nat (6 - sint i))"
    by simp
qed

declare bar_loop.simps [simp del]

subsection \<open>The mutual recursion\<close>

text \<open>
  \<^verbatim>\<open>void RecursiveMadness_foo(RecursiveMadness* this, int level) { int result = level;
  if (result > 0) { int level = result - 1; RecursiveMadness_bar(this, level); }
  else { printf("Reached base in foo\n"); } }\<close>

  \<^verbatim>\<open>void RecursiveMadness_bar(RecursiveMadness* this, int count) { for (...) {...}
  RecursiveMadness_foo(this, count - 1); }\<close>
\<close>

function RecursiveMadness_foo :: "world \<Rightarrow> int32 \<Rightarrow> world"
  and RecursiveMadness_bar :: "world \<Rightarrow> int32 \<Rightarrow> world" where
  "RecursiveMadness_foo w level =
     (let result = level
      in if 0 < sint result
         then (let level' = result - 1 in RecursiveMadness_bar w level')
         else printf w ''Reached base in foo\<newline>'')"
| "RecursiveMadness_bar w count =
     (let w' = bar_loop w count 0 in RecursiveMadness_foo w' (count - 1))"
  by pat_completeness auto

text \<open>
  The rank of a call, \<open>Inl\<close> for \<open>foo\<close> and \<open>Inr\<close> for \<open>bar\<close>: every call that a call makes
  has a smaller rank, also when \<^verbatim>\<open>count - 1\<close> wraps around.
\<close>

definition call_rank :: "world \<times> int32 + world \<times> int32 \<Rightarrow> nat" where
  "call_rank z = (case z of
       Inl (w, level) \<Rightarrow> (if 0 < sint level then 2 * nat (sint level) else 0)
     | Inr (w, count) \<Rightarrow> (if 0 < sint (count - 1) then 2 * nat (sint (count - 1)) + 1 else 1))"

lemma foo_bar_terminates: "All RecursiveMadness_foo_RecursiveMadness_bar_dom"
proof (relation "measure call_rank")
  show "wf (measure call_rank)" by simp
next
  fix w :: world and level x xa :: int32
  assume a: "x = level" "0 < sint x" "xa = x - 1"
  have p1: "sint (level - 1) = sint level - 1" using a by (intro sint_pred) simp
  have p2: "sint (level - 1 - 1) = sint level - 2"
    using a p1 sint_pred [of "level - 1"] by simp
  show "(Inr (w, xa), Inl (w, level)) \<in> measure call_rank"
    using a p2 by (auto simp: call_rank_def)
next
  fix w x :: world and count :: int32
  show "(Inl (x, count - 1), Inr (w, count)) \<in> measure call_rank"
    by (simp add: call_rank_def)
qed

termination RecursiveMadness_foo
  by (rule foo_bar_terminates)

declare RecursiveMadness_foo.simps [simp del] RecursiveMadness_bar.simps [simp del]

text \<open>
  \<^verbatim>\<open>void RecursiveMadness_start(RecursiveMadness* this, int x)
  { printf("Starting madness with %d\n", x); RecursiveMadness_foo(this, x); }\<close>
\<close>

definition RecursiveMadness_start :: "world \<Rightarrow> int32 \<Rightarrow> world" where
  "RecursiveMadness_start w x =
     (let w' = printf w (''Starting madness with '' @ fmt_d x @ ''\<newline>'')
      in RecursiveMadness_foo w' x)"

text \<open>
  \<^verbatim>\<open>RecursiveMadness* RecursiveMadness_new() { RecursiveMadness* this =
  malloc(sizeof(RecursiveMadness)); this->depth = 0; this->depth = 0; return this; }\<close>
  The argument is what \<^verbatim>\<open>malloc\<close> returned: \<open>None\<close> for NULL, otherwise the block with
  the contents it happens to have (\<^verbatim>\<open>malloc\<close> does not clear it).
\<close>

definition RecursiveMadness_new :: "RecursiveMadness option \<Rightarrow> error + RecursiveMadness" where
  "RecursiveMadness_new mem =
     (case mem of
        None \<Rightarrow> Inl NullDereference
      | Some this \<Rightarrow> (let this = this\<lparr>depth := 0\<rparr>; this = this\<lparr>depth := 0\<rparr> in Inr this))"

text \<open>
  \<^verbatim>\<open>int main() { RecursiveMadness* insane = RecursiveMadness_new();
  RecursiveMadness_start(insane, 6); return 0; }\<close>
  \<open>main_from\<close> is the body with the starting value as a parameter, \<open>main\<close> the program:
  the result is the exit status and the world at exit.
\<close>

definition main_from :: "RecursiveMadness option \<Rightarrow> int32 \<Rightarrow> error + int32 \<times> world" where
  "main_from mem x =
     (case RecursiveMadness_new mem of
        Inl e \<Rightarrow> Inl e
      | Inr insane \<Rightarrow>
          (let w = RecursiveMadness_start \<lparr>session = insane, stdout = []\<rparr> x in Inr (0, w)))"

definition main :: "RecursiveMadness option \<Rightarrow> error + int32 \<times> world" where
  "main mem = main_from mem 6"

section \<open>Reading the output\<close>

text \<open>A block of memory and a world to run the program on.\<close>

definition mem0 :: RecursiveMadness where
  "mem0 = \<lparr>width = 0, height = 0, current_generation = 0, grid = 0, next_grid = 0, depth = 0\<rparr>"

definition world0 :: world where
  "world0 = \<lparr>session = mem0, stdout = []\<rparr>"

text \<open>What a call wrote: the output of the world after it, without the output before it.\<close>

definition emitted :: "world \<Rightarrow> world \<Rightarrow> string" where
  "emitted w w' = drop (length (stdout w)) (stdout w')"

text \<open>The lines of a text: it is cut after every newline, which is not part of the line.\<close>

fun lines_of :: "string \<Rightarrow> string list" where
  "lines_of [] = []"
| "lines_of (c # cs) =
     (if c = CHR 0x0A then [] # lines_of cs
      else (case lines_of cs of [] \<Rightarrow> [[c]] | l # ls \<Rightarrow> (c # l) # ls))"

text \<open>The text made of the given lines, each followed by a newline.\<close>

definition unlines :: "string list \<Rightarrow> string" where
  "unlines ls = concat (map (\<lambda>l. l @ ''\<newline>'') ls)"

definition bar_loop_lines :: "string \<Rightarrow> string list" where
  "bar_loop_lines out = filter (prefix ''bar loop'') (lines_of out)"

text \<open>
  The lines of one run of the loop of \<open>bar\<close> called with \<open>count\<close>; the arguments of the
  calls of \<open>bar\<close> that \<open>foo\<close> called with \<open>n\<close> leads to, in order (\<open>n - 1\<close>, \<open>n - 3\<close>, and so
  on down to 1 or 0); and the lines of a call of \<open>foo\<close>.
\<close>

definition bar_block :: "RecursiveMadness \<Rightarrow> int32 \<Rightarrow> string list" where
  "bar_block t count =
     map (\<lambda>k. ''bar loop i='' @ fmt_d (of_nat k) @ '', count='' @ fmt_d (of_nat k))
       [0..<nat (sint (RecursiveMadness_get_limit t count)) + 1]"

fun bar_counts :: "nat \<Rightarrow> nat list" where
  "bar_counts n = (if n = 0 then [] else (n - 1) # bar_counts (n - 2))"

declare bar_counts.simps [simp del]

definition foo_lines :: "RecursiveMadness \<Rightarrow> int32 \<Rightarrow> string list" where
  "foo_lines t level =
     concat (map (\<lambda>k. bar_block t (of_nat k)) (bar_counts (nat (sint level))))
       @ [''Reached base in foo'']"

text \<open>
  The number of bar-loop lines of \<open>start x\<close> in the words of the specification (its
  testable property 7): the sum of \<open>get_limit k + 1\<close> over every \<open>k\<close> from 0 to \<open>x - 1\<close>.
\<close>

definition spec_bar_loop_total :: "RecursiveMadness \<Rightarrow> int32 \<Rightarrow> nat" where
  "spec_bar_loop_total t x =
     (\<Sum>k<nat (sint x). nat (sint (RecursiveMadness_get_limit t (of_nat k))) + 1)"

section \<open>Closed forms of the output\<close>

subsection \<open>Lines\<close>

lemma digit_char_no_nl: "d < 10 \<Longrightarrow> digit_char d \<noteq> CHR 0x0A"
proof -
  assume "d < 10"
  then have "digit_char d \<in> set ''0123456789''"
    unfolding digit_char_def by (intro nth_mem) simp
  then show ?thesis by auto
qed

lemma dec_nat_no_nl: "CHR 0x0A \<notin> set (dec_nat n)"
proof (induction n rule: dec_nat.induct)
  case (1 n)
  show ?case
  proof (cases "n < 10")
    case True
    then show ?thesis using digit_char_no_nl [of n] by (simp add: dec_nat.simps [of n])
  next
    case False
    then show ?thesis
      using 1 digit_char_no_nl [of "n mod 10"] by (simp add: dec_nat.simps [of n])
  qed
qed

lemma fmt_d_no_nl: "CHR 0x0A \<notin> set (fmt_d x)"
  by (simp add: fmt_d_def dec_nat_no_nl)

lemma lines_of_line:
  "CHR 0x0A \<notin> set l \<Longrightarrow> lines_of (l @ CHR 0x0A # rest) = l # lines_of rest"
  by (induction l) auto

lemma unlines_Cons: "unlines (l # ls) = l @ CHR 0x0A # unlines ls"
  by (simp add: unlines_def)

lemma unlines_append: "unlines (xs @ ys) = unlines xs @ unlines ys"
  by (simp add: unlines_def)

lemma lines_of_unlines:
  "(\<And>l. l \<in> set ls \<Longrightarrow> CHR 0x0A \<notin> set l) \<Longrightarrow> lines_of (unlines ls) = ls"
proof (induction ls)
  case Nil
  show ?case by (simp add: unlines_def)
next
  case (Cons l ls)
  then show ?case by (simp add: unlines_Cons lines_of_line)
qed

subsection \<open>What the calls write\<close>

lemma printf_printf: "printf (printf w a) b = printf w (a @ b)"
  by (simp add: printf_def)

lemma session_printf: "session (printf w s) = session w"
  by (simp add: printf_def)

lemma printf_Nil: "printf w [] = w"
  by (simp add: printf_def)

lemma emitted_printf: "emitted w (printf w s) = s"
  by (simp add: emitted_def printf_def)

lemma bar_loop_from:
  "0 \<le> sint i \<Longrightarrow> sint i \<le> sint (RecursiveMadness_get_limit (session w) count) + 1 \<Longrightarrow>
   bar_loop w count i =
     printf w (unlines (map (\<lambda>k. ''bar loop i='' @ fmt_d (of_nat k) @ '', count='' @ fmt_d (of_nat k))
        [nat (sint i)..<nat (sint (RecursiveMadness_get_limit (session w) count)) + 1]))"
proof (induction w count i rule: bar_loop.induct)
  case (1 w count i)
  let ?L = "RecursiveMadness_get_limit (session w) count"
  show ?case
  proof (cases "sint i \<le> sint ?L")
    case False
    with 1(3) have "sint i = sint ?L + 1" by simp
    moreover have "bar_loop w count i = w"
      using False by (simp add: bar_loop.simps [of w count i])
    moreover have "0 \<le> sint ?L" using sint_get_limit_bounds [of "session w" count] by simp
    ultimately show ?thesis by (simp add: unlines_def printf_Nil nat_add_distrib)
  next
    case True
    let ?w' = "printf w (''bar loop i='' @ fmt_d i @ '', count='' @ fmt_d i @ ''\<newline>'')"
    have le5: "sint i \<le> 5" using True sint_get_limit_bounds [of "session w" count] by linarith
    then have succ: "sint (i + 1) = sint i + 1" by (intro sint_succ) linarith
    have i_eq: "of_nat (nat (sint i)) = i" using 1(2) by simp
    have step: "bar_loop w count i = bar_loop ?w' count (i + 1)"
      using True by (simp add: bar_loop.simps [of w count i])
    have IH: "bar_loop ?w' count (i + 1) =
        printf ?w' (unlines (map (\<lambda>k. ''bar loop i='' @ fmt_d (of_nat k) @ '', count='' @ fmt_d (of_nat k))
          [nat (sint (i + 1))..<nat (sint ?L) + 1]))"
      using 1(1) [OF True refl refl] 1(2) True succ by (simp add: session_printf)
    have upt: "[nat (sint i)..<nat (sint ?L) + 1] = nat (sint i) # [nat (sint (i + 1))..<nat (sint ?L) + 1]"
    proof -
      have lt: "nat (sint i) < nat (sint ?L) + 1" using True 1(2) by linarith
      have "nat (sint (i + 1)) = Suc (nat (sint i))" using succ 1(2) by linarith
      with upt_conv_Cons [OF lt] show ?thesis by simp
    qed
    show ?thesis
      unfolding step IH upt using i_eq by (simp add: printf_printf unlines_Cons)
  qed
qed

lemma bar_loop_eq: "bar_loop w count 0 = printf w (unlines (bar_block (session w) count))"
  using bar_loop_from [of 0 w count] sint_get_limit_bounds [of "session w" count]
  by (simp add: bar_block_def)

lemma bar_block_session: "bar_block t count = bar_block t' count"
  by (simp add: bar_block_def RecursiveMadness_get_limit_def)

lemma foo_lines_session: "foo_lines t level = foo_lines t' level"
  using bar_block_session [of t _ t'] by (simp add: foo_lines_def)

lemma foo_eq: "RecursiveMadness_foo w level = printf w (unlines (foo_lines (session w) level))"
proof (induction "nat (sint level)" arbitrary: w level rule: less_induct)
  case less
  show ?case
  proof (cases "0 < sint level")
    case False
    then have "bar_counts (nat (sint level)) = []" by (simp add: bar_counts.simps)
    with False show ?thesis
      by (simp add: RecursiveMadness_foo.simps [of w level] foo_lines_def unlines_def)
  next
    case True
    let ?c = "level - 1"
    let ?w' = "bar_loop w ?c 0"
    have p1: "sint ?c = sint level - 1" using True by (intro sint_pred) simp
    have p2: "sint (?c - 1) = sint level - 2" using True p1 sint_pred [of ?c] by simp
    have c_eq: "of_nat (nat (sint level) - Suc 0) = ?c"
    proof -
      have "nat (sint level) - 1 = nat (sint ?c)" using p1 by simp
      moreover have "0 \<le> sint ?c" using p1 True by simp
      ultimately show ?thesis by simp
    qed
    have cnt: "bar_counts (nat (sint level)) = (nat (sint level) - 1) # bar_counts (nat (sint (?c - 1)))"
    proof -
      have "nat (sint level) - 2 = nat (sint (?c - 1))" using p2 by simp
      then show ?thesis using True by (simp add: bar_counts.simps [of "nat (sint level)"])
    qed
    have step: "RecursiveMadness_foo w level = RecursiveMadness_foo ?w' (?c - 1)"
      using True
      by (simp add: RecursiveMadness_foo.simps [of w level] RecursiveMadness_bar.simps [of w ?c])
    have "nat (sint (?c - 1)) < nat (sint level)" using p2 True by simp
    from less [OF this]
    have IH: "RecursiveMadness_foo ?w' (?c - 1) = printf ?w' (unlines (foo_lines (session ?w') (?c - 1)))" .
    have s: "session ?w' = session w" by (simp add: bar_loop_eq session_printf)
    have fl: "foo_lines (session w) level = bar_block (session w) ?c @ foo_lines (session w) (?c - 1)"
      by (simp add: foo_lines_def cnt c_eq)
    show ?thesis
      unfolding step IH s fl by (simp add: bar_loop_eq printf_printf unlines_append)
  qed
qed

lemma bar_eq:
  "RecursiveMadness_bar w count =
     printf w (unlines (bar_block (session w) count @ foo_lines (session w) (count - 1)))"
  by (simp add: RecursiveMadness_bar.simps [of w count] bar_loop_eq foo_eq session_printf
      printf_printf unlines_append)

lemma start_eq:
  "RecursiveMadness_start w x =
     printf w (unlines ((''Starting madness with '' @ fmt_d x) # foo_lines (session w) x))"
  by (simp add: RecursiveMadness_start_def foo_eq session_printf printf_printf unlines_Cons)

lemma bar_block_no_nl: "l \<in> set (bar_block t c) \<Longrightarrow> CHR 0x0A \<notin> set l"
  by (auto simp: bar_block_def fmt_d_no_nl)

lemma bar_block_prefix: "l \<in> set (bar_block t c) \<Longrightarrow> prefix ''bar loop'' l"
  by (auto simp: bar_block_def)

lemma bar_block_fields:
  "l \<in> set (bar_block t c) \<Longrightarrow> \<exists>i. l = ''bar loop i='' @ fmt_d i @ '', count='' @ fmt_d i"
  by (auto simp: bar_block_def)

lemma length_bar_block:
  "length (bar_block t c) = nat (sint (RecursiveMadness_get_limit t c)) + 1"
  by (simp add: bar_block_def)

lemma foo_lines_no_nl: "l \<in> set (foo_lines t level) \<Longrightarrow> CHR 0x0A \<notin> set l"
  by (auto simp: foo_lines_def dest: bar_block_no_nl)

lemma banner_no_nl: "CHR 0x0A \<notin> set (''Starting madness with '' @ fmt_d x)"
  by (simp add: fmt_d_no_nl)

lemma lines_bar_loop:
  "lines_of (emitted w (bar_loop w count 0)) = bar_block (session w) count"
  by (simp add: bar_loop_eq emitted_printf lines_of_unlines bar_block_no_nl)

lemma lines_bar:
  "lines_of (emitted w (RecursiveMadness_bar w count)) =
     bar_block (session w) count @ foo_lines (session w) (count - 1)"
  using bar_block_no_nl foo_lines_no_nl
  by (simp add: bar_eq emitted_printf) (intro lines_of_unlines, auto)

lemma lines_start:
  "lines_of (emitted w (RecursiveMadness_start w x)) =
     (''Starting madness with '' @ fmt_d x) # foo_lines (session w) x"
  using foo_lines_no_nl banner_no_nl
  by (simp only: start_eq emitted_printf) (intro lines_of_unlines, auto)

lemma filter_bar_block: "filter (prefix ''bar loop'') (bar_block t c) = bar_block t c"
  by (simp add: bar_block_prefix)

lemma bar_counts_sum:
  "sum_list (map g (bar_counts n)) = (\<Sum>j<(n + 1) div 2. g (n - 1 - 2 * j))"
proof (induction n rule: bar_counts.induct)
  case (1 n)
  show ?case
  proof (cases "n = 0")
    case True
    then show ?thesis by (simp add: bar_counts.simps [of 0])
  next
    case False
    define m where "m = (n - 1) div 2"
    have m: "(n + 1) div 2 = Suc m" "(n - 2 + 1) div 2 = m"
      using False unfolding m_def by arith+
    have sh: "\<And>j. n - 2 - 1 - 2 * j = n - 1 - 2 * Suc j" by simp
    have "sum_list (map g (bar_counts n)) = g (n - 1) + sum_list (map g (bar_counts (n - 2)))"
      using False by (simp add: bar_counts.simps [of n])
    also have "\<dots> = g (n - 1) + (\<Sum>j<m. g (n - 1 - 2 * Suc j))"
      using 1 [OF False] m(2) sh by simp
    also have "\<dots> = (\<Sum>j<Suc m. g (n - 1 - 2 * j))"
      unfolding sum.lessThan_Suc_shift by simp
    finally show ?thesis using m(1) by simp
  qed
qed

lemma length_bar_loop_lines_foo:
  "length (filter (prefix ''bar loop'') (foo_lines t level)) =
     sum_list (map (\<lambda>k. nat (sint (RecursiveMadness_get_limit t (of_nat k))) + 1)
       (bar_counts (nat (sint level))))"
proof -
  have "filter (prefix ''bar loop'') (foo_lines t level) =
      concat (map (\<lambda>k. bar_block t (of_nat k)) (bar_counts (nat (sint level))))"
    by (simp add: foo_lines_def filter_concat comp_def filter_bar_block)
  then show ?thesis
    by (simp add: length_concat comp_def length_bar_block)
qed

lemma main_eq:
  "main_from (Some raw) x =
     Inr (0, RecursiveMadness_start \<lparr>session = raw\<lparr>depth := 0\<rparr>, stdout = []\<rparr> x)"
  by (simp add: main_from_def RecursiveMadness_new_def)

lemma count_base_bar_block: "count_list (bar_block t c) ''Reached base in foo'' = 0"
  by (auto simp: bar_block_def count_list_0_iff)

lemma count_base_concat:
  "count_list (concat (map (\<lambda>k. bar_block t (f k)) ks)) ''Reached base in foo'' = 0"
  by (induction ks) (simp_all add: count_base_bar_block)

lemma session_bar_loop: "session (bar_loop w count i) = session w"
proof (induction w count i rule: bar_loop.induct)
  case (1 w count i)
  show ?case
  proof (cases "sint i \<le> sint (RecursiveMadness_get_limit (session w) count)")
    case True
    from 1 [OF True refl refl] True show ?thesis
      by (simp add: bar_loop.simps [of w count i] session_printf)
  next
    case False
    then show ?thesis by (simp add: bar_loop.simps [of w count i])
  qed
qed

lemma fmt_d_0: "fmt_d 0 = ''0''"
  by code_simp

lemma bar_block_neg: "sint c < 0 \<Longrightarrow> bar_block t c = [''bar loop i=0, count=0'']"
  by (simp add: bar_block_def get_limit_neg fmt_d_0)

lemma foo_lines_nonpos: "sint level \<le> 0 \<Longrightarrow> foo_lines t level = [''Reached base in foo'']"
  by (simp add: foo_lines_def bar_counts.simps [of 0])

subsection \<open>Runs on given inputs\<close>

lemma foo_lines_6:
  "foo_lines t 6 =
    [''bar loop i=0, count=0'', ''bar loop i=1, count=1'', ''bar loop i=2, count=2'',
     ''bar loop i=3, count=3'',
     ''bar loop i=0, count=0'', ''bar loop i=1, count=1'', ''bar loop i=2, count=2'',
     ''bar loop i=3, count=3'', ''bar loop i=4, count=4'', ''bar loop i=5, count=5'',
     ''bar loop i=0, count=0'', ''bar loop i=1, count=1'', ''bar loop i=2, count=2'',
     ''bar loop i=3, count=3'',
     ''Reached base in foo'']"
  by code_simp

lemma foo_lines_6_blocks:
  "foo_lines t 6 = bar_block t 5 @ bar_block t 3 @ bar_block t 1 @ [''Reached base in foo'']"
  by code_simp

lemma fmt_d_6: "fmt_d 6 = ''6''"
  by code_simp

lemma lines_default_run:
  "lines_of (stdout (RecursiveMadness_start world0 6)) =
     ''Starting madness with 6'' # foo_lines mem0 6"
  using lines_start [of world0 6] by (simp add: emitted_def world0_def fmt_d_6)

lemma bar_loop_lines_start_2:
  "length (bar_loop_lines (emitted world0 (RecursiveMadness_start world0 2))) = 4"
  by code_simp

lemma spec_total_2: "spec_bar_loop_total mem0 2 = 7"
  by code_simp

lemma lines_start_2:
  "lines_of (emitted world0 (RecursiveMadness_start world0 2)) =
    [''Starting madness with 2'', ''bar loop i=0, count=0'', ''bar loop i=1, count=1'',
     ''bar loop i=2, count=2'', ''bar loop i=3, count=3'', ''Reached base in foo'']"
  by code_simp

lemma fmt_d_minus_5: "fmt_d (- 5) = ''-5''"
  by code_simp

lemma int_min_pred: "(- 2147483648 :: int32) - 1 = 2147483647"
  by simp

lemma bar_counts_int_max: "bar_counts 2147483647 = 2147483646 # bar_counts 2147483645"
  by (subst bar_counts.simps) simp

lemma bar_block_big:
  "bar_block t 2147483646 =
    [''bar loop i=0, count=0'', ''bar loop i=1, count=1'', ''bar loop i=2, count=2'',
     ''bar loop i=3, count=3'', ''bar loop i=4, count=4'']"
  by code_simp

lemma lines_bar_int_min:
  "lines_of (emitted w (RecursiveMadness_bar w (- 2147483648))) =
     ''bar loop i=0, count=0'' # ''bar loop i=0, count=0'' # ''bar loop i=1, count=1'' #
     ''bar loop i=2, count=2'' # ''bar loop i=3, count=3'' # ''bar loop i=4, count=4'' #
     concat (map (\<lambda>k. bar_block (session w) (of_nat k)) (bar_counts 2147483645)) @
     [''Reached base in foo'']"
proof -
  have n: "sint (- 2147483648 :: int32) < 0" by simp
  have m: "nat (sint (2147483647 :: int32)) = 2147483647" by simp
  show ?thesis
    by (simp add: lines_bar bar_block_neg [OF n] int_min_pred foo_lines_def m
        bar_counts_int_max bar_block_big)
qed

section \<open>The loop bound\<close>

lemma get_limit_values:
  "0 \<le> sint x \<Longrightarrow> RecursiveMadness_get_limit t x \<in> {2, 3, 4, 5}"
proof -
  assume h: "0 \<le> sint x"
  let ?y = "RecursiveMadness_get_limit t x"
  have s: "sint ?y = sint x mod 4 + 2" by (rule sint_get_limit_nonneg [OF h])
  have "sint x mod 4 \<in> {0, 1, 2, 3}"
    using pos_mod_bound [of 4 "sint x"] pos_mod_sign [of 4 "sint x"] by auto
  then have "sint ?y \<in> {2, 3, 4, 5}" using s by auto
  moreover have "?y = word_of_int (sint ?y)" by simp
  ultimately show ?thesis by (metis insert_iff empty_iff of_int_numeral)
qed

text \<open>
  Claim C4. \<open>get_limit\<close> is a function of \<open>x\<close> alone, defined on every \<^verbatim>\<open>int\<close>: it is 0
  for every negative \<open>x\<close>, and \<open>x mod 4 + 2\<close>, one of 2, 3, 4 and 5, for every other \<open>x\<close>;
  at -1, 0, 1, 2, 3, 4 and 7 it is 0, 2, 3, 4, 5, 2 and 5.
\<close>

theorem get_limit_contract:
  "RecursiveMadness_get_limit t x = RecursiveMadness_get_limit t' x \<and>
   (sint x < 0 \<longrightarrow> RecursiveMadness_get_limit t x = 0) \<and>
   (0 \<le> sint x \<longrightarrow>
      sint (RecursiveMadness_get_limit t x) = sint x mod 4 + 2 \<and>
      RecursiveMadness_get_limit t x \<in> {2, 3, 4, 5}) \<and>
   RecursiveMadness_get_limit t (- 1) = 0 \<and>
   RecursiveMadness_get_limit t 0 = 2 \<and>
   RecursiveMadness_get_limit t 1 = 3 \<and>
   RecursiveMadness_get_limit t 2 = 4 \<and>
   RecursiveMadness_get_limit t 3 = 5 \<and>
   RecursiveMadness_get_limit t 4 = 2 \<and>
   RecursiveMadness_get_limit t 7 = 5"
proof -
  have pure: "RecursiveMadness_get_limit t x = RecursiveMadness_get_limit t' x"
    by (simp add: RecursiveMadness_get_limit_def)
  have neg: "sint x < 0 \<longrightarrow> RecursiveMadness_get_limit t x = 0"
    by (simp add: get_limit_neg)
  have pos: "0 \<le> sint x \<longrightarrow>
      sint (RecursiveMadness_get_limit t x) = sint x mod 4 + 2 \<and>
      RecursiveMadness_get_limit t x \<in> {2, 3, 4, 5}"
    using sint_get_limit_nonneg [of x t] get_limit_values [of x t] by blast
  have vals: "RecursiveMadness_get_limit t (- 1) = 0" "RecursiveMadness_get_limit t 0 = 2"
    "RecursiveMadness_get_limit t 1 = 3" "RecursiveMadness_get_limit t 2 = 4"
    "RecursiveMadness_get_limit t 3 = 5" "RecursiveMadness_get_limit t 4 = 2"
    "RecursiveMadness_get_limit t 7 = 5"
    by (simp_all add: RecursiveMadness_get_limit_def c_rem_def smod4_nonneg)
  from pure neg pos vals show ?thesis by blast
qed

theorem get_limit_contract_witness:
  "sint (- 1 :: int32) < 0 \<and> RecursiveMadness_get_limit mem0 (- 1) = 0 \<and>
   0 \<le> sint (7 :: int32) \<and> sint (RecursiveMadness_get_limit mem0 7) = 7 mod 4 + 2 \<and>
   RecursiveMadness_get_limit mem0 7 \<in> {2, 3, 4, 5}"
  using get_limit_contract [of mem0 "- 1" mem0] get_limit_contract [of mem0 7 mem0]
  by simp

section \<open>The two procedures\<close>

text \<open>
  Claim C3. Called with \<open>count\<close>, \<open>bar\<close> first writes the lines
  \<^verbatim>\<open>bar loop i=<i>, count=<i>\<close> for \<open>i\<close> from 0 to \<open>get_limit count\<close>, the same number printed
  twice, each line ended by a newline, and nothing else; these are \<open>get_limit count + 1\<close>
  lines, all of them bar-loop lines. Then it calls \<open>foo\<close> with \<open>count - 1\<close> (a subtraction
  of \<^verbatim>\<open>int\<close>).
\<close>

theorem bar_contract:
  "RecursiveMadness_bar w count = RecursiveMadness_foo (bar_loop w count 0) (count - 1) \<and>
   emitted w (bar_loop w count 0) =
     unlines (map (\<lambda>k. ''bar loop i='' @ fmt_d (of_nat k) @ '', count='' @ fmt_d (of_nat k))
       [0..<nat (sint (RecursiveMadness_get_limit (session w) count)) + 1]) \<and>
   lines_of (emitted w (bar_loop w count 0)) =
     map (\<lambda>k. ''bar loop i='' @ fmt_d (of_nat k) @ '', count='' @ fmt_d (of_nat k))
       [0..<nat (sint (RecursiveMadness_get_limit (session w) count)) + 1] \<and>
   length (bar_loop_lines (emitted w (bar_loop w count 0))) =
     nat (sint (RecursiveMadness_get_limit (session w) count)) + 1"
proof -
  have a: "RecursiveMadness_bar w count = RecursiveMadness_foo (bar_loop w count 0) (count - 1)"
    by (simp add: RecursiveMadness_bar.simps [of w count])
  have b: "emitted w (bar_loop w count 0) = unlines (bar_block (session w) count)"
    by (simp add: bar_loop_eq emitted_printf)
  have c: "lines_of (emitted w (bar_loop w count 0)) = bar_block (session w) count"
    by (rule lines_bar_loop)
  have d: "length (bar_loop_lines (emitted w (bar_loop w count 0))) =
     nat (sint (RecursiveMadness_get_limit (session w) count)) + 1"
    by (simp only: bar_loop_lines_def c filter_bar_block length_bar_block)
  from a b c d show ?thesis unfolding bar_block_def by blast
qed

text \<open>
  Claim C5. Called with a \<open>level\<close> above 0, \<open>foo\<close> is the call of \<open>bar\<close> with \<open>level - 1\<close>
  and nothing more: it writes nothing itself. Called with a \<open>level\<close> of 0 or less it
  writes the one line \<^verbatim>\<open>Reached base in foo\<close> and returns, with no call of \<open>bar\<close>.
\<close>

theorem foo_contract:
  "(0 < sint level \<longrightarrow> RecursiveMadness_foo w level = RecursiveMadness_bar w (level - 1)) \<and>
   (sint level \<le> 0 \<longrightarrow>
      RecursiveMadness_foo w level = w\<lparr>stdout := stdout w @ ''Reached base in foo\<newline>''\<rparr> \<and>
      emitted w (RecursiveMadness_foo w level) = ''Reached base in foo\<newline>'')"
  by (simp add: RecursiveMadness_foo.simps [of w level] printf_def emitted_def)

theorem foo_contract_witness:
  "0 < sint (1 :: int32) \<and> RecursiveMadness_foo world0 1 = RecursiveMadness_bar world0 (1 - 1) \<and>
   sint (0 :: int32) \<le> 0 \<and> emitted world0 (RecursiveMadness_foo world0 0) = ''Reached base in foo\<newline>'' \<and>
   RecursiveMadness_foo world0 0 = world0\<lparr>stdout := stdout world0 @ ''Reached base in foo\<newline>''\<rparr>"
proof -
  have h1: "0 < sint (1 :: int32)" and h0: "sint (0 :: int32) \<le> 0" by simp_all
  from foo_contract [of 1 world0] foo_contract [of 0 world0] h1 h0 show ?thesis by blast
qed

section \<open>The trace of a run\<close>

text \<open>
  Claim C7. Whatever the starting value, every line that \<open>start\<close> writes and that begins
  with \<^verbatim>\<open>bar loop\<close> is \<^verbatim>\<open>bar loop i=<i>, count=<i>\<close> for one \<open>i\<close>: the two numbers printed
  are the same.
\<close>

theorem bar_loop_fields_equal:
  "\<forall>l \<in> set (lines_of (emitted w (RecursiveMadness_start w x))).
     prefix ''bar loop'' l \<longrightarrow> (\<exists>i. l = ''bar loop i='' @ fmt_d i @ '', count='' @ fmt_d i)"
proof (intro ballI impI)
  fix l
  assume m: "l \<in> set (lines_of (emitted w (RecursiveMadness_start w x)))"
    and p: "prefix ''bar loop'' l"
  from m have "l = ''Starting madness with '' @ fmt_d x \<or> l = ''Reached base in foo''
      \<or> (\<exists>c. l \<in> set (bar_block (session w) c))"
    by (auto simp: lines_start foo_lines_def)
  then consider (banner) "l = ''Starting madness with '' @ fmt_d x"
    | (base) "l = ''Reached base in foo''"
    | (loop) c where "l \<in> set (bar_block (session w) c)"
    by blast
  then show "\<exists>i. l = ''bar loop i='' @ fmt_d i @ '', count='' @ fmt_d i"
  proof cases
    case banner
    with p show ?thesis by simp
  next
    case base
    with p show ?thesis by simp
  next
    case loop
    then show ?thesis by (rule bar_block_fields)
  qed
qed

lemma lines_start_1:
  "lines_of (emitted world0 (RecursiveMadness_start world0 1)) =
    [''Starting madness with 1'', ''bar loop i=0, count=0'', ''bar loop i=1, count=1'',
     ''bar loop i=2, count=2'', ''Reached base in foo'']"
  by code_simp

theorem bar_loop_fields_equal_witness:
  "''bar loop i=2, count=2'' \<in> set (lines_of (emitted world0 (RecursiveMadness_start world0 1))) \<and>
   prefix ''bar loop'' ''bar loop i=2, count=2'' \<and>
   (\<exists>i. ''bar loop i=2, count=2'' = ''bar loop i='' @ fmt_d i @ '', count='' @ fmt_d i)"
proof -
  have m: "''bar loop i=2, count=2'' \<in> set (lines_of (emitted world0 (RecursiveMadness_start world0 1)))"
    by (simp add: lines_start_1)
  have p: "prefix ''bar loop'' ''bar loop i=2, count=2''" by simp
  from bar_loop_fields_equal [of world0 1, rule_format, OF m p] m p show ?thesis by blast
qed

text \<open>
  Claim C8. For every starting value \<open>x\<close> from 0 on, what \<open>start x\<close> writes is a sequence of
  lines, each ended by a newline; the last of them is \<^verbatim>\<open>Reached base in foo\<close>, and that line
  occurs once in the whole trace.
\<close>

theorem last_line_base:
  "0 \<le> sint x \<Longrightarrow>
   emitted w (RecursiveMadness_start w x) = unlines (lines_of (emitted w (RecursiveMadness_start w x))) \<and>
   last (lines_of (emitted w (RecursiveMadness_start w x))) = ''Reached base in foo'' \<and>
   count_list (lines_of (emitted w (RecursiveMadness_start w x))) ''Reached base in foo'' = 1"
proof -
  have a: "emitted w (RecursiveMadness_start w x) =
      unlines (lines_of (emitted w (RecursiveMadness_start w x)))"
    by (simp only: lines_start) (simp add: start_eq emitted_printf)
  have b: "last (lines_of (emitted w (RecursiveMadness_start w x))) = ''Reached base in foo''"
    by (simp add: lines_start foo_lines_def)
  have c: "count_list (lines_of (emitted w (RecursiveMadness_start w x))) ''Reached base in foo'' = 1"
    by (simp add: lines_start foo_lines_def count_base_concat)
  from a b c show ?thesis by blast
qed

theorem last_line_base_witness:
  "0 \<le> sint (2 :: int32) \<and>
   last (lines_of (emitted world0 (RecursiveMadness_start world0 2))) = ''Reached base in foo'' \<and>
   count_list (lines_of (emitted world0 (RecursiveMadness_start world0 2))) ''Reached base in foo'' = 1 \<and>
   lines_of (emitted world0 (RecursiveMadness_start world0 2)) =
    [''Starting madness with 2'', ''bar loop i=0, count=0'', ''bar loop i=1, count=1'',
     ''bar loop i=2, count=2'', ''bar loop i=3, count=3'', ''Reached base in foo'']"
proof -
  have h: "0 \<le> sint (2 :: int32)" by simp
  from last_line_base [OF h, of world0] h lines_start_2 show ?thesis by blast
qed

text \<open>
  Claim C2, as the specification states it, fails at \<open>x = 2\<close>: \<open>start 2\<close> writes 4 bar-loop
  lines (\<open>foo 2\<close> calls \<open>bar 1\<close>, whose tail \<open>foo 0\<close> is the base case), the sum over
  \<open>k = 0, 1\<close> is \<open>3 + 4 = 7\<close>.
\<close>

theorem bar_loop_total_counterexample:
  "length (bar_loop_lines (emitted world0 (RecursiveMadness_start world0 2))) = 4 \<and>
   spec_bar_loop_total mem0 2 = 7 \<and>
   length (bar_loop_lines (emitted world0 (RecursiveMadness_start world0 2))) \<noteq> spec_bar_loop_total mem0 2"
  by (simp add: bar_loop_lines_start_2 spec_total_2)

text \<open>
  Claim C2, amended. \<open>foo\<close> passes \<open>level - 1\<close> to \<open>bar\<close> and \<open>bar\<close> passes \<open>count - 1\<close> back, so
  \<open>bar\<close> runs for every second value only. For every \<open>x\<close> from 1 on, the number of bar-loop
  lines that \<open>start x\<close> writes is the sum of \<open>get_limit k + 1\<close> over \<open>k = x - 1, x - 3, \<dots>\<close>
  down to 1 or 0, that is over \<open>k = x - 1 - 2 * j\<close> for \<open>j\<close> below \<open>(x + 1) div 2\<close>.
\<close>

theorem bar_loop_total:
  "1 \<le> sint x \<Longrightarrow>
   length (bar_loop_lines (emitted w (RecursiveMadness_start w x))) =
     (\<Sum>j<(nat (sint x) + 1) div 2.
        nat (sint (RecursiveMadness_get_limit (session w) (of_nat (nat (sint x) - 1 - 2 * j)))) + 1)"
  by (simp add: bar_loop_lines_def lines_start length_bar_loop_lines_foo bar_counts_sum)

theorem bar_loop_total_witness:
  "1 \<le> sint (3 :: int32) \<and>
   length (bar_loop_lines (emitted world0 (RecursiveMadness_start world0 3))) =
     (\<Sum>j<(nat (sint (3 :: int32)) + 1) div 2.
        nat (sint (RecursiveMadness_get_limit (session world0) (of_nat (nat (sint (3 :: int32)) - 1 - 2 * j)))) + 1)"
proof -
  have h: "1 \<le> sint (3 :: int32)" by simp
  from bar_loop_total [OF h, of world0] h show ?thesis by blast
qed

text \<open>
  Claim C10, as stated, fails for the direct call of \<open>bar\<close> at the smallest \<^verbatim>\<open>int\<close>: there
  \<^verbatim>\<open>count - 1\<close> is not a negative number (it wraps to the largest \<^verbatim>\<open>int\<close>), \<open>foo\<close> does
  not take its base case, and the first loop line is followed by the loop lines of
  \<open>bar 2147483646\<close>.
\<close>

theorem nonpositive_runs_counterexample:
  "sint (- 2147483648 :: int32) < 0 \<and>
   take 2 (lines_of (emitted world0 (RecursiveMadness_bar world0 (- 2147483648)))) =
     [''bar loop i=0, count=0'', ''bar loop i=0, count=0''] \<and>
   emitted world0 (RecursiveMadness_bar world0 (- 2147483648)) \<noteq>
     ''bar loop i=0, count=0\<newline>Reached base in foo\<newline>''"
proof -
  have a: "sint (- 2147483648 :: int32) < 0" by simp
  have b: "take 2 (lines_of (emitted world0 (RecursiveMadness_bar world0 (- 2147483648)))) =
     [''bar loop i=0, count=0'', ''bar loop i=0, count=0'']"
    by (simp add: lines_bar_int_min)
  have c: "take 2 (lines_of ''bar loop i=0, count=0\<newline>Reached base in foo\<newline>'') =
     [''bar loop i=0, count=0'', ''Reached base in foo'']"
    by simp
  have "emitted world0 (RecursiveMadness_bar world0 (- 2147483648)) \<noteq>
     ''bar loop i=0, count=0\<newline>Reached base in foo\<newline>''"
  proof
    assume "emitted world0 (RecursiveMadness_bar world0 (- 2147483648)) =
      ''bar loop i=0, count=0\<newline>Reached base in foo\<newline>''"
    with b c show False by simp
  qed
  with a b show ?thesis by blast
qed

text \<open>
  Claim C10, amended. For every starting value \<open>x\<close> of 0 or less, \<open>start x\<close> is two calls
  of \<^verbatim>\<open>printf\<close>: it writes the two lines \<^verbatim>\<open>Starting madness with <x>\<close> and
  \<^verbatim>\<open>Reached base in foo\<close>, no bar-loop line, and \<open>bar\<close> does not run. A direct call of \<open>bar\<close>
  with a negative \<open>c\<close> above the smallest \<^verbatim>\<open>int\<close> writes one loop line and then the base
  line of \<open>foo (c - 1)\<close>.
\<close>

theorem nonpositive_runs:
  "(sint x \<le> 0 \<longrightarrow>
      RecursiveMadness_start w x =
        printf (printf w (''Starting madness with '' @ fmt_d x @ ''\<newline>''))
          ''Reached base in foo\<newline>'' \<and>
      emitted w (RecursiveMadness_start w x) =
        ''Starting madness with '' @ fmt_d x @ ''\<newline>Reached base in foo\<newline>'' \<and>
      lines_of (emitted w (RecursiveMadness_start w x)) =
        [''Starting madness with '' @ fmt_d x, ''Reached base in foo''] \<and>
      bar_loop_lines (emitted w (RecursiveMadness_start w x)) = []) \<and>
   (sint c < 0 \<and> - 2147483648 < sint c \<longrightarrow>
      emitted w (RecursiveMadness_bar w c) =
        ''bar loop i=0, count=0\<newline>Reached base in foo\<newline>'' \<and>
      lines_of (emitted w (RecursiveMadness_bar w c)) =
        [''bar loop i=0, count=0'', ''Reached base in foo''])"
proof -
  have a: "RecursiveMadness_start w x =
        printf (printf w (''Starting madness with '' @ fmt_d x @ ''\<newline>''))
          ''Reached base in foo\<newline>''" if "sint x \<le> 0"
    using that by (simp add: RecursiveMadness_start_def RecursiveMadness_foo.simps [of _ x])
  have b: "emitted w (RecursiveMadness_start w x) =
        ''Starting madness with '' @ fmt_d x @ ''\<newline>Reached base in foo\<newline>''" if "sint x \<le> 0"
    using that by (simp add: start_eq emitted_printf foo_lines_nonpos unlines_def)
  have c: "lines_of (emitted w (RecursiveMadness_start w x)) =
        [''Starting madness with '' @ fmt_d x, ''Reached base in foo'']" if "sint x \<le> 0"
    using that by (simp add: lines_start foo_lines_nonpos)
  have d: "bar_loop_lines (emitted w (RecursiveMadness_start w x)) = []" if "sint x \<le> 0"
    using c [OF that] by (simp add: bar_loop_lines_def)
  have p: "sint (c - 1) \<le> 0" if "sint c < 0" "- 2147483648 < sint c"
    using that sint_pred [of c] by simp
  have e: "emitted w (RecursiveMadness_bar w c) =
        ''bar loop i=0, count=0\<newline>Reached base in foo\<newline>''"
    if "sint c < 0" "- 2147483648 < sint c"
    using that p [OF that]
    by (simp add: bar_eq emitted_printf bar_block_neg foo_lines_nonpos unlines_def)
  have f: "lines_of (emitted w (RecursiveMadness_bar w c)) =
        [''bar loop i=0, count=0'', ''Reached base in foo'']"
    if "sint c < 0" "- 2147483648 < sint c"
    using that p [OF that] by (simp add: lines_bar bar_block_neg foo_lines_nonpos)
  from a b c d e f show ?thesis by blast
qed

theorem nonpositive_runs_witness:
  "sint (- 5 :: int32) \<le> 0 \<and>
   emitted world0 (RecursiveMadness_start world0 (- 5)) =
     ''Starting madness with '' @ fmt_d (- 5) @ ''\<newline>Reached base in foo\<newline>'' \<and>
   fmt_d (- 5) = ''-5'' \<and>
   bar_loop_lines (emitted world0 (RecursiveMadness_start world0 (- 5))) = [] \<and>
   sint (- 3 :: int32) < 0 \<and> - 2147483648 < sint (- 3 :: int32) \<and>
   emitted world0 (RecursiveMadness_bar world0 (- 3)) =
     ''bar loop i=0, count=0\<newline>Reached base in foo\<newline>''"
proof -
  have h: "sint (- 5 :: int32) \<le> 0" "sint (- 3 :: int32) < 0" "- 2147483648 < sint (- 3 :: int32)"
    by simp_all
  from nonpositive_runs [of "- 5" world0 "- 3"] h fmt_d_minus_5 show ?thesis
    by blast
qed

section \<open>Termination\<close>

text \<open>
  Claim C6. For every starting value \<open>x\<close> from 0 on, the run of \<open>start x\<close> terminates: the
  call of \<open>foo\<close> that \<open>start\<close> makes is in the domain of the mutual recursion (every chain
  of calls from it is finite: \<open>call_rank\<close> decreases at each call), the last text written
  is the line of the base case of \<open>foo\<close>, and the program that starts at \<open>x\<close> returns the
  exit status 0. (The call stack is not part of the model.)
\<close>

theorem start_terminates:
  "0 \<le> sint x \<Longrightarrow>
   RecursiveMadness_foo_RecursiveMadness_bar_dom
     (Inl (printf w (''Starting madness with '' @ fmt_d x @ ''\<newline>''), x)) \<and>
   (\<exists>body. emitted w (RecursiveMadness_start w x) = body @ ''Reached base in foo\<newline>'') \<and>
   main_from (Some raw) x =
     Inr (0, RecursiveMadness_start \<lparr>session = raw\<lparr>depth := 0\<rparr>, stdout = []\<rparr> x)"
proof -
  have a: "RecursiveMadness_foo_RecursiveMadness_bar_dom
     (Inl (printf w (''Starting madness with '' @ fmt_d x @ ''\<newline>''), x))"
    using foo_bar_terminates by simp
  have "emitted w (RecursiveMadness_start w x) =
      unlines ((''Starting madness with '' @ fmt_d x) #
        concat (map (\<lambda>k. bar_block (session w) (of_nat k)) (bar_counts (nat (sint x)))))
      @ ''Reached base in foo\<newline>''"
    by (simp add: start_eq emitted_printf foo_lines_def unlines_def)
  then have b: "\<exists>body. emitted w (RecursiveMadness_start w x) = body @ ''Reached base in foo\<newline>''"
    by blast
  from a b main_eq [of raw x] show ?thesis by blast
qed

theorem start_terminates_witness:
  "0 \<le> sint (6 :: int32) \<and>
   RecursiveMadness_foo_RecursiveMadness_bar_dom
     (Inl (printf world0 (''Starting madness with '' @ fmt_d 6 @ ''\<newline>''), 6)) \<and>
   (\<exists>body. emitted world0 (RecursiveMadness_start world0 6) = body @ ''Reached base in foo\<newline>'') \<and>
   main_from (Some mem0) 6 =
     Inr (0, RecursiveMadness_start \<lparr>session = mem0\<lparr>depth := 0\<rparr>, stdout = []\<rparr> 6)"
proof -
  have h: "0 \<le> sint (6 :: int32)" by simp
  from start_terminates [OF h, of world0 mem0] h show ?thesis by blast
qed

section \<open>The session record\<close>

text \<open>
  Claim C9. \<open>start\<close>, \<open>foo\<close>, \<open>bar\<close> (and its loop) leave the record as it is: after the
  call every field (\<open>width\<close>, \<open>height\<close>, \<open>current_generation\<close>, \<open>grid\<close>, \<open>next_grid\<close>, \<open>depth\<close>)
  has the value it had before. \<open>get_limit\<close> does not depend on the record, and what
  \<open>start x\<close> writes is the same in any two worlds: it depends on \<open>x\<close> only.
\<close>

theorem session_untouched:
  "session (RecursiveMadness_start w x) = session w \<and>
   session (RecursiveMadness_foo w x) = session w \<and>
   session (RecursiveMadness_bar w x) = session w \<and>
   session (bar_loop w x i) = session w \<and>
   RecursiveMadness_get_limit t x = RecursiveMadness_get_limit t' x \<and>
   emitted w (RecursiveMadness_start w x) = emitted w' (RecursiveMadness_start w' x)"
proof -
  have a: "session (RecursiveMadness_start w x) = session w"
    by (simp add: start_eq session_printf)
  have b: "session (RecursiveMadness_foo w x) = session w"
    by (simp add: foo_eq session_printf)
  have c: "session (RecursiveMadness_bar w x) = session w"
    by (simp add: bar_eq session_printf)
  have d: "RecursiveMadness_get_limit t x = RecursiveMadness_get_limit t' x"
    by (simp add: RecursiveMadness_get_limit_def)
  have e: "emitted w (RecursiveMadness_start w x) = emitted w' (RecursiveMadness_start w' x)"
    using foo_lines_session [of "session w" x "session w'"]
    by (simp only: start_eq emitted_printf)
  from a b c d e session_bar_loop [of w x i] show ?thesis by blast
qed

section \<open>The program's run\<close>

text \<open>
  Claim C1, as stated, fails: the run of \<open>main\<close>, which is \<open>start 6\<close>, writes 16 lines, 14
  of them bar-loop lines, not 21 and 19.
\<close>

theorem default_run_counterexample:
  "main (Some mem0) = Inr (0, RecursiveMadness_start world0 6) \<and>
   length (lines_of (stdout (RecursiveMadness_start world0 6))) = 16 \<and>
   length (bar_loop_lines (stdout (RecursiveMadness_start world0 6))) = 14 \<and>
   length (lines_of (stdout (RecursiveMadness_start world0 6))) \<noteq> 21"
proof -
  have a: "main (Some mem0) = Inr (0, RecursiveMadness_start world0 6)"
    by (simp add: main_def main_eq world0_def mem0_def)
  have b: "length (lines_of (stdout (RecursiveMadness_start world0 6))) = 16"
    by (simp add: lines_default_run foo_lines_6)
  have c: "length (bar_loop_lines (stdout (RecursiveMadness_start world0 6))) = 14"
    by (simp add: bar_loop_lines_def lines_default_run foo_lines_6)
  from a b c show ?thesis by simp
qed

text \<open>
  Claim C1, amended. When the allocation succeeds, \<open>main\<close> returns 0 and has written
  exactly 16 lines, each ended by a newline: the banner \<^verbatim>\<open>Starting madness with 6\<close>, then
  for \<open>k = 5, 3, 1\<close> in that order the \<open>get_limit k + 1\<close> bar-loop lines of \<open>bar k\<close> (4, 6 and
  4 lines, 14 in all), and at last \<^verbatim>\<open>Reached base in foo\<close>.
\<close>

theorem default_run:
  "(let ls =
      [''Starting madness with 6'',
       ''bar loop i=0, count=0'', ''bar loop i=1, count=1'', ''bar loop i=2, count=2'',
       ''bar loop i=3, count=3'',
       ''bar loop i=0, count=0'', ''bar loop i=1, count=1'', ''bar loop i=2, count=2'',
       ''bar loop i=3, count=3'', ''bar loop i=4, count=4'', ''bar loop i=5, count=5'',
       ''bar loop i=0, count=0'', ''bar loop i=1, count=1'', ''bar loop i=2, count=2'',
       ''bar loop i=3, count=3'',
       ''Reached base in foo'']
    in main (Some raw) = Inr (0, \<lparr>session = raw\<lparr>depth := 0\<rparr>, stdout = unlines ls\<rparr>) \<and>
       lines_of (unlines ls) = ls \<and>
       length ls = 16 \<and>
       length (bar_loop_lines (unlines ls)) = 14 \<and>
       ls = [''Starting madness with 6''] @ bar_block raw 5 @ bar_block raw 3 @ bar_block raw 1
              @ [''Reached base in foo''] \<and>
       length (bar_block raw 5) = 4 \<and> length (bar_block raw 3) = 6 \<and>
       length (bar_block raw 1) = 4)"
proof -
  have a: "main (Some raw) =
     Inr (0, \<lparr>session = raw\<lparr>depth := 0\<rparr>,
              stdout = unlines (''Starting madness with 6'' # foo_lines (raw\<lparr>depth := 0\<rparr>) 6)\<rparr>)"
    by (simp add: main_def main_eq start_eq printf_def fmt_d_6)
  have b: "length (bar_block raw 5) = 4" "length (bar_block raw 3) = 6"
    "length (bar_block raw 1) = 4"
    by code_simp+
  have c: "foo_lines (raw\<lparr>depth := 0\<rparr>) 6 = foo_lines raw 6" by (rule foo_lines_session)
  have d: "lines_of (unlines (''Starting madness with 6'' # foo_lines raw 6)) =
      ''Starting madness with 6'' # foo_lines raw 6"
    by (rule lines_of_unlines) (auto dest: foo_lines_no_nl)
  have e: "length (bar_loop_lines (unlines (''Starting madness with 6'' # foo_lines raw 6))) = 14"
    unfolding bar_loop_lines_def d by (simp add: foo_lines_6)
  show ?thesis
    unfolding Let_def a c using b d e foo_lines_6_blocks [of raw] by (simp add: foo_lines_6)
qed

end
